theory Spec2Isabelle
  imports Main "HOL-Library.Sublist" "HOL-Library.List_Lexorder"
begin

section \<open>Data model\<close>

text \<open>
  The scraper of \<^verbatim>\<open>scraper_new.py\<close> works on three kinds of data.
  \<^item> Python \<^verbatim>\<open>bytes\<close> (a response body) are lists of 8-bit units: \<open>string\<close>.
  \<^item> Python \<^verbatim>\<open>str\<close> (decoded text, URLs, department codes) are lists of code points:
    \<open>nat list\<close>. String comparison in Python is lexicographic on code points, which is
    the order of \<open>List_Lexorder\<close> on \<open>nat list\<close>.
  \<^item> The values that \<^verbatim>\<open>json.loads\<close> builds are \<open>pyval\<close>. A dict is an association
    list in insertion order. JSON numbers with a fraction or an exponent (Python floats)
    are outside the model.
\<close>

type_synonym bytes = string
type_synonym str = "nat list"

abbreviation lit :: "string \<Rightarrow> str" where
  "lit s \<equiv> map of_char s"

datatype pyval =
    PNone
  | PBool bool
  | PInt int
  | PStr str
  | PList "pyval list"
  | PDict "(str \<times> pyval) list"

datatype error = AttributeError | TypeError

text \<open>
  The library calls of the source are parameters of the model:
  \<^item> \<open>decode_ignore\<close> is \<^verbatim>\<open>raw.decode("utf-8", errors="ignore")\<close>;
  \<^item> \<open>json_loads\<close> is \<^verbatim>\<open>json.loads\<close>, \<open>None\<close> when it raises;
  \<^item> \<open>select_table_tr\<close> is \<^verbatim>\<open>BeautifulSoup(html, "lxml").select("table tr")\<close>: the rows in
    document order, each row given by its anchors \<^verbatim>\<open>row.find_all("a")\<close>, each anchor by its
    \<^verbatim>\<open>href\<close> attribute (\<open>None\<close> when the anchor has none);
  \<^item> \<open>unicode_alnum\<close> says which code points from 128 on the class \<^verbatim>\<open>\w\<close> accepts;
  \<^item> \<open>dict_str\<close> is \<^verbatim>\<open>str(c)\<close> for a dict \<^verbatim>\<open>c\<close>.
\<close>

record lib =
  decode_ignore :: "bytes \<Rightarrow> str"
  json_loads :: "str \<Rightarrow> pyval option"
  select_table_tr :: "bytes \<Rightarrow> str option list list"
  unicode_alnum :: "nat \<Rightarrow> bool"
  dict_str :: "(str \<times> pyval) list \<Rightarrow> str"

section \<open>The fetch helper\<close>

text \<open>
  One attempt of \<^verbatim>\<open>session.get(url, params=params)\<close> followed by \<^verbatim>\<open>r.read()\<close> either
  gives a response (its status code and its body), or raises in \<^verbatim>\<open>get\<close>, or raises in
  \<^verbatim>\<open>read\<close> after a response with some status code arrived. The session is a function
  from the request and the number of the attempt to that outcome. What \<^verbatim>\<open>fetch\<close> does
  besides returning is a list of events: a request, or a sleep of 400 milliseconds.
\<close>

datatype outcome = Response nat bytes | GetRaises | ReadRaises nat

datatype event = Get | Sleep nat

type_synonym params = "(str \<times> str) list option"
type_synonym session = "str \<Rightarrow> params \<Rightarrow> nat \<Rightarrow> outcome"

fun fetch_loop :: "(nat \<Rightarrow> outcome) \<Rightarrow> nat \<Rightarrow> nat \<Rightarrow> bytes option \<times> event list" where
  "fetch_loop src i 0 = (None, [])"
| "fetch_loop src i (Suc n) =
     (case src i of
        Response status body \<Rightarrow> (Some body, [Get])
      | _ \<Rightarrow> (let (r, evs) = fetch_loop src (Suc i) n in (r, Get # Sleep 400 # evs)))"

definition fetch :: "session \<Rightarrow> str \<Rightarrow> params \<Rightarrow> int \<Rightarrow> bytes option \<times> event list" where
  "fetch session url params retries = fetch_loop (session url params) 0 (nat retries)"

definition raises :: "outcome \<Rightarrow> bool" where
  "raises oc = (case oc of Response status body \<Rightarrow> False | _ \<Rightarrow> True)"

definition always_fails :: session where
  "always_fails url params i = GetRaises"

definition status_session :: "nat \<Rightarrow> bytes \<Rightarrow> session" where
  "status_session status body url params i = Response status body"

section \<open>Parsing one index page\<close>

definition word_char :: "lib \<Rightarrow> nat \<Rightarrow> bool" where
  "word_char L c =
     (if c < 128
      then (48 \<le> c \<and> c \<le> 57) \<or> (65 \<le> c \<and> c \<le> 90) \<or> c = 95 \<or> (97 \<le> c \<and> c \<le> 122)
      else unicode_alnum L c)"

definition pattern_tail :: "str \<Rightarrow> str" where
  "pattern_tail semester = lit ''_'' @ semester @ lit ''.html''"

text \<open>
  The group \<^verbatim>\<open>(\w{2,6})\<close> is greedy: the longest run first, then shorter ones, down to 2.
\<close>

fun try_code :: "str \<Rightarrow> str \<Rightarrow> nat \<Rightarrow> str option" where
  "try_code tail rest 0 = None"
| "try_code tail rest (Suc k) =
     (if 2 \<le> Suc k \<and> prefix tail (drop (Suc k) rest) then Some (take (Suc k) rest)
      else try_code tail rest k)"

definition match_here :: "lib \<Rightarrow> str \<Rightarrow> str \<Rightarrow> str option" where
  "match_here L semester s =
     (case s of
        [] \<Rightarrow> None
      | c # rest \<Rightarrow>
          if c = 47
          then try_code (pattern_tail semester) rest (min 6 (length (takeWhile (word_char L) rest)))
          else None)"

fun regex_search :: "lib \<Rightarrow> str \<Rightarrow> str \<Rightarrow> str option" where
  "regex_search L semester [] = None"
| "regex_search L semester (c # cs) =
     (case match_here L semester (c # cs) of
        Some code \<Rightarrow> Some code
      | None \<Rightarrow> regex_search L semester cs)"

definition href_of :: "str option \<Rightarrow> str" where
  "href_of a = (case a of None \<Rightarrow> [] | Some h \<Rightarrow> h)"

fun scan_anchors :: "lib \<Rightarrow> str \<Rightarrow> str option list \<Rightarrow> str list \<Rightarrow> str list" where
  "scan_anchors L semester [] depts = depts"
| "scan_anchors L semester (a # as) depts =
     (case regex_search L semester (href_of a) of
        Some code \<Rightarrow> scan_anchors L semester as (depts @ [code])
      | None \<Rightarrow> scan_anchors L semester as depts)"

fun scan_rows :: "lib \<Rightarrow> str \<Rightarrow> str option list list \<Rightarrow> str list \<Rightarrow> str list" where
  "scan_rows L semester [] depts = depts"
| "scan_rows L semester (row # rows) depts =
     scan_rows L semester rows (scan_anchors L semester row depts)"

definition parse_department_page :: "lib \<Rightarrow> bytes \<Rightarrow> str \<Rightarrow> str list" where
  "parse_department_page L html semester =
     scan_rows L semester (butlast (drop 3 (select_table_tr L html))) []"

section \<open>Discovery of the departments\<close>

definition UWB_ROOT :: str where
  "UWB_ROOT = lit ''http://www.columbia.edu/cu/bulletin/uwb/sel''"

definition VERGIL_ROOT :: str where
  "VERGIL_ROOT = lit ''https://vergil.registrar.columbia.edu''"

definition dept_url :: "nat \<Rightarrow> str" where
  "dept_url c = UWB_ROOT @ lit ''/dept-'' @ [c] @ lit ''.html''"

fun merge_pages :: "lib \<Rightarrow> str \<Rightarrow> bytes option list \<Rightarrow> str list \<Rightarrow> str list" where
  "merge_pages L semester [] all_depts = all_depts"
| "merge_pages L semester (page # pages) all_depts =
     (case page of
        None \<Rightarrow> merge_pages L semester pages all_depts
      | Some html \<Rightarrow>
          if html = [] then merge_pages L semester pages all_depts
          else merge_pages L semester pages (all_depts @ parse_department_page L html semester))"

definition sorted_set :: "str list \<Rightarrow> str list" where
  "sorted_set xs = sort (remdups xs)"

definition index_pages :: "session \<Rightarrow> bytes option list" where
  "index_pages session = map (\<lambda>c. fst (fetch session (dept_url c) None 3)) [65..<91]"

definition get_departments :: "lib \<Rightarrow> session \<Rightarrow> str \<Rightarrow> str list" where
  "get_departments L session semester =
     sorted_set (merge_pages L semester (index_pages session) [])"

definition MANUAL_DEPTS :: "str list" where
  "MANUAL_DEPTS = [lit ''HIST'', lit ''UNHS'', lit ''UNHI'', lit ''GUHIS'']"

definition add_manual :: "str list \<Rightarrow> str list \<Rightarrow> str list" where
  "add_manual departments manual = sorted_set (departments @ manual)"

definition departments :: "lib \<Rightarrow> session \<Rightarrow> str \<Rightarrow> str list" where
  "departments L session semester = add_manual (get_departments L session semester) MANUAL_DEPTS"

section \<open>Harvest of the courses\<close>

datatype failure = NoResponse | NoJsonArray | JsonError

definition query_url :: str where
  "query_url = VERGIL_ROOT @ lit ''/doc-adv-queries.php''"

definition query_params :: "str \<Rightarrow> str \<Rightarrow> params" where
  "query_params dept term_code =
     Some [(lit ''dept'', dept), (lit ''key'', lit ''*''), (lit ''moreresults'', lit ''2''),
           (lit ''term'', term_code)]"

definition py_find :: "str \<Rightarrow> nat \<Rightarrow> int" where
  "py_find text c =
     (if c \<in> set text then int (length (takeWhile (\<lambda>x. x \<noteq> c) text)) else - 1)"

text \<open>
  \<^verbatim>\<open>all_courses.extend(data)\<close> takes the elements of a list, the characters of a string
  and the keys of a dict, and raises \<^verbatim>\<open>TypeError\<close> (\<open>None\<close> here) on the other values.
\<close>

fun extend_items :: "pyval \<Rightarrow> pyval list option" where
  "extend_items (PList xs) = Some xs"
| "extend_items (PStr s) = Some (map (\<lambda>c. PStr [c]) s)"
| "extend_items (PDict kvs) = Some (map (\<lambda>kv. PStr (fst kv)) kvs)"
| "extend_items PNone = None"
| "extend_items (PBool b) = None"
| "extend_items (PInt i) = None"

definition extract_payload :: "lib \<Rightarrow> bytes \<Rightarrow> failure + pyval list" where
  "extract_payload L raw =
     (let text = decode_ignore L raw; json_start = py_find text 91 in
      if json_start = - 1 then Inl NoJsonArray
      else (case json_loads L (drop (nat json_start) text) of
              None \<Rightarrow> Inl JsonError
            | Some data \<Rightarrow>
                (case extend_items data of None \<Rightarrow> Inl JsonError | Some xs \<Rightarrow> Inr xs)))"

definition shard :: "lib \<Rightarrow> bytes option \<Rightarrow> failure + pyval list" where
  "shard L raw =
     (case raw of
        None \<Rightarrow> Inl NoResponse
      | Some body \<Rightarrow> if body = [] then Inl NoResponse else extract_payload L body)"

fun harvest_loop ::
  "lib \<Rightarrow> session \<Rightarrow> str \<Rightarrow> str list \<Rightarrow> pyval list \<Rightarrow> (str \<times> failure) list
     \<Rightarrow> pyval list \<times> (str \<times> failure) list" where
  "harvest_loop L session term_code [] all_courses printed = (all_courses, printed)"
| "harvest_loop L session term_code (dept # depts) all_courses printed =
     (case shard L (fst (fetch session query_url (query_params dept term_code) 3)) of
        Inl f \<Rightarrow> harvest_loop L session term_code depts all_courses (printed @ [(dept, f)])
      | Inr data \<Rightarrow> harvest_loop L session term_code depts (all_courses @ data) printed)"

definition harvest :: "lib \<Rightarrow> session \<Rightarrow> str \<Rightarrow> str list \<Rightarrow> pyval list \<times> (str \<times> failure) list" where
  "harvest L session term_code depts = harvest_loop L session term_code depts [] []"

section \<open>Deduplication\<close>

definition truthy :: "pyval \<Rightarrow> bool" where
  "truthy v =
     (case v of
        PNone \<Rightarrow> False
      | PBool b \<Rightarrow> b
      | PInt i \<Rightarrow> i \<noteq> 0
      | PStr s \<Rightarrow> s \<noteq> []
      | PList xs \<Rightarrow> xs \<noteq> []
      | PDict kvs \<Rightarrow> kvs \<noteq> [])"

definition dict_get :: "(str \<times> pyval) list \<Rightarrow> str \<Rightarrow> pyval" where
  "dict_get kvs k = (case map_of kvs k of None \<Rightarrow> PNone | Some v \<Rightarrow> v)"

definition py_or :: "pyval \<Rightarrow> pyval \<Rightarrow> pyval" where
  "py_or a b = (if truthy a then a else b)"

text \<open>
  \<^verbatim>\<open>cid = c.get("id") or c.get("CourseNumber") or str(c)\<close>; a value that is not a dict has
  no \<^verbatim>\<open>get\<close>.
\<close>

definition identity_key :: "lib \<Rightarrow> pyval \<Rightarrow> error + pyval" where
  "identity_key L c =
     (case c of
        PDict kvs \<Rightarrow>
          Inr (py_or (dict_get kvs (lit ''id''))
                 (py_or (dict_get kvs (lit ''CourseNumber'')) (PStr (dict_str L kvs))))
      | _ \<Rightarrow> Inl AttributeError)"

text \<open>
  Membership in the set \<^verbatim>\<open>seen\<close> goes by hash and equality: \<^verbatim>\<open>True\<close> is \<^verbatim>\<open>1\<close>, \<^verbatim>\<open>False\<close>
  is \<^verbatim>\<open>0\<close>, and a list or a dict is unhashable (\<open>None\<close> here, a \<^verbatim>\<open>TypeError\<close>).
\<close>

datatype hkey = KNone | KNum int | KStr str

fun hash_key :: "pyval \<Rightarrow> hkey option" where
  "hash_key PNone = Some KNone"
| "hash_key (PBool b) = Some (KNum (if b then 1 else 0))"
| "hash_key (PInt i) = Some (KNum i)"
| "hash_key (PStr s) = Some (KStr s)"
| "hash_key (PList xs) = None"
| "hash_key (PDict kvs) = None"

definition record_key :: "lib \<Rightarrow> pyval \<Rightarrow> error + hkey" where
  "record_key L c =
     (case identity_key L c of
        Inl e \<Rightarrow> Inl e
      | Inr cid \<Rightarrow> (case hash_key cid of None \<Rightarrow> Inl TypeError | Some k \<Rightarrow> Inr k))"

fun dedupe_loop :: "lib \<Rightarrow> pyval list \<Rightarrow> hkey set \<Rightarrow> pyval list \<Rightarrow> error + pyval list" where
  "dedupe_loop L [] seen deduped = Inr deduped"
| "dedupe_loop L (c # cs) seen deduped =
     (case record_key L c of
        Inl e \<Rightarrow> Inl e
      | Inr k \<Rightarrow>
          if k \<notin> seen then dedupe_loop L cs (insert k seen) (deduped @ [c])
          else dedupe_loop L cs seen deduped)"

definition dedupe :: "lib \<Rightarrow> pyval list \<Rightarrow> error + pyval list" where
  "dedupe L all_courses = dedupe_loop L all_courses {} []"

definition get_courses :: "lib \<Rightarrow> session \<Rightarrow> str \<Rightarrow> str list \<Rightarrow> error + pyval list" where
  "get_courses L session term_code depts = dedupe L (fst (harvest L session term_code depts))"

text \<open>
  What one department contributes to the harvest: the outcome of its round of the loop,
  whether that round failed, and the records it appended.
\<close>

definition category_result :: "lib \<Rightarrow> session \<Rightarrow> str \<Rightarrow> str \<Rightarrow> failure + pyval list" where
  "category_result L session term_code dept =
     shard L (fst (fetch session query_url (query_params dept term_code) 3))"

definition category_fails :: "lib \<Rightarrow> session \<Rightarrow> str \<Rightarrow> str \<Rightarrow> bool" where
  "category_fails L session term_code dept =
     (case category_result L session term_code dept of Inl f \<Rightarrow> True | Inr data \<Rightarrow> False)"

definition category_records :: "lib \<Rightarrow> session \<Rightarrow> str \<Rightarrow> str \<Rightarrow> pyval list" where
  "category_records L session term_code dept =
     (case category_result L session term_code dept of Inl f \<Rightarrow> [] | Inr data \<Rightarrow> data)"

text \<open>
  The specification of deduplication: keep an element when its key was not seen before.
\<close>

fun first_by :: "('a \<Rightarrow> 'k) \<Rightarrow> 'k set \<Rightarrow> 'a list \<Rightarrow> 'a list" where
  "first_by key seen [] = []"
| "first_by key seen (x # xs) =
     (if key x \<in> seen then first_by key seen xs
      else x # first_by key (insert (key x) seen) xs)"

text \<open>Deduplication applied to its own result; an exception of the first run propagates.\<close>

definition dedupe_twice :: "lib \<Rightarrow> pyval list \<Rightarrow> error + pyval list" where
  "dedupe_twice L all_courses =
     (case dedupe L all_courses of Inl e \<Rightarrow> Inl e | Inr deduped \<Rightarrow> dedupe L deduped)"


section \<open>Concrete inputs for the examples\<close>

text \<open>
  An instance of the library parameters that agrees with the libraries on the inputs of
  the examples below (bytes below 128, three JSON texts, one index page, one dict), and
  a session in which every index page fails and four departments of the term 20253
  answer, one of them on the second attempt.
\<close>

definition ascii_decode :: "bytes \<Rightarrow> str" where
  "ascii_decode raw = lit (filter (\<lambda>b. (of_char b :: nat) < 128) raw)"

definition demo_json :: "str \<Rightarrow> pyval option" where
  \<open>demo_json text =
     (if text = lit ''[{"a":1}]'' then Some (PList [PDict [(lit ''a'', PInt 1)]])
      else if text = lit ''[{"id":1},{"id":2}]''
        then Some (PList [PDict [(lit ''id'', PInt 1)], PDict [(lit ''id'', PInt 2)]])
      else if text = lit ''[{"id":3}]'' then Some (PList [PDict [(lit ''id'', PInt 3)]])
      else None)\<close>

definition demo_page :: bytes where
  "demo_page = ''<table><tr><td>Departments</td></tr><tr><td>A</td></tr><tr><td>B</td></tr>''
     @ ''<tr><td><a href=/cu/bulletin/uwb/sel/HIST_Fall2025.html>History</a>''
     @ ''<a href=/cu/bulletin/uwb/sel/HIST_Fall2025.html>Fall 2025</a></td></tr>''
     @ ''<tr><td>Home</td></tr></table>''"

definition demo_anchors :: "str option list" where
  "demo_anchors =
     [Some (lit ''/cu/bulletin/uwb/sel/HIST_Fall2025.html''),
      Some (lit ''/cu/bulletin/uwb/sel/HIST_Fall2025.html'')]"

definition demo_rows :: "str option list list" where
  "demo_rows = [] # [] # [] # demo_anchors # [] # []"

definition demo_str :: "(str \<times> pyval) list \<Rightarrow> str" where
  "demo_str kvs =
     (if kvs = [(lit ''title'', PStr (lit ''x''))] then lit ''{'title': 'x'}'' else lit ''{}'')"

definition demo_select :: "bytes \<Rightarrow> str option list list" where
  "demo_select html = (if html = demo_page then demo_rows else [])"

definition no_unicode :: "nat \<Rightarrow> bool" where
  "no_unicode c = False"

definition demo_lib :: lib where
  "demo_lib =
     \<lparr>decode_ignore = ascii_decode,
      json_loads = demo_json,
      select_table_tr = demo_select,
      unicode_alnum = no_unicode,
      dict_str = demo_str\<rparr>"

definition demo_session :: session where
  \<open>demo_session url params i =
     (if params = query_params (lit ''AFAS'') (lit ''20253'')
        then Response 200 ''while(1);[{"id":1},{"id":2}]''
      else if params = query_params (lit ''HIST'') (lit ''20253'') then ReadRaises 200
      else if params = query_params (lit ''MATH'') (lit ''20253'')
        then Response 200 ''no courses''
      else if params = query_params (lit ''UNHS'') (lit ''20253'')
        then (if i = 0 then GetRaises else Response 200 ''[{"id":3}]'')
      else GetRaises)\<close>

text \<open>
  Four records: one with an id, a later one with the same id, one whose id is 0, and one
  without id fields.
\<close>

definition course_a :: pyval where
  "course_a = PDict [(lit ''id'', PInt 7), (lit ''CourseNumber'', PStr (lit ''COMS1004''))]"

definition course_a_again :: pyval where
  "course_a_again = PDict [(lit ''id'', PInt 7), (lit ''CourseNumber'', PStr (lit ''COMS1007''))]"


definition course_no_id :: "(str \<times> pyval) list" where
  "course_no_id = [(lit ''title'', PStr (lit ''x''))]"

section \<open>Properties of the fetch helper\<close>

lemma fetch_loop_all_raise:
  "(\<And>j. j < n \<Longrightarrow> raises (src (i + j))) \<Longrightarrow>
   fetch_loop src i n = (None, concat (replicate n [Get, Sleep 400]))"
proof (induction n arbitrary: i)
  case 0
  then show ?case by simp
next
  case (Suc n)
  have r0: "raises (src i)" using Suc.prems [of 0] by simp
  have "\<And>j. j < n \<Longrightarrow> raises (src (Suc i + j))" using Suc.prems [of "Suc j" for j] by simp
  then have ih: "fetch_loop src (Suc i) n = (None, concat (replicate n [Get, Sleep 400]))"
    by (rule Suc.IH)
  from r0 ih show ?case by (cases "src i") (simp_all add: raises_def)
qed

lemma count_list_attempts:
  "count_list (concat (replicate n [Get, Sleep d])) Get = n"
  "count_list (concat (replicate n [Get, Sleep d])) (Sleep d) = n"
  by (induction n) simp_all

text \<open>
  C1 (amended). When every one of the \<open>retries\<close> attempts raises, \<open>fetch\<close> makes exactly
  \<open>retries\<close> requests and returns \<open>None\<close> as a value; the sleep of 0.4 seconds follows
  every failed attempt, the last one too, so there are \<open>retries\<close> sleeps and not
  \<open>retries - 1\<close>.
\<close>

theorem fetch_exhausts_retries:
  assumes "\<forall>i. i < nat retries \<longrightarrow> raises (session url params i)"
  shows "fetch session url params retries =
           (None, concat (replicate (nat retries) [Get, Sleep 400])) \<and>
         count_list (snd (fetch session url params retries)) Get = nat retries \<and>
         count_list (snd (fetch session url params retries)) (Sleep 400) = nat retries"
proof -
  have "fetch_loop (session url params) 0 (nat retries) =
          (None, concat (replicate (nat retries) [Get, Sleep 400]))"
    using assms by (intro fetch_loop_all_raise) simp
  then show ?thesis by (simp add: fetch_def count_list_attempts)
qed

theorem fetch_exhausts_retries_witness:
  "fetch always_fails query_url None 3 =
     (None, [Get, Sleep 400, Get, Sleep 400, Get, Sleep 400]) \<and>
   count_list (snd (fetch always_fails query_url None 3)) Get = 3 \<and>
   count_list (snd (fetch always_fails query_url None 3)) (Sleep 400) = 3"
  using fetch_exhausts_retries [of 3 always_fails query_url None]
  by (simp add: always_fails_def raises_def numeral_3_eq_3)

text \<open>
  With three attempts that all fail there are three sleeps, not two, and the last event
  is a sleep.
\<close>

theorem fetch_delays_counterexample:
  "count_list (snd (fetch always_fails query_url None 3)) (Sleep 400) \<noteq> 3 - 1 \<and>
   last (snd (fetch always_fails query_url None 3)) = Sleep 400"
  by (simp add: fetch_def always_fails_def numeral_3_eq_3)

text \<open>
  C9. With at least one attempt allowed, a response on the first attempt is returned as
  its body after a single request, whatever its status code; and \<open>fetch\<close> sleeps (the
  retry path) exactly when the first attempt raised.
\<close>

theorem fetch_ignores_status:
  assumes "0 < retries"
  shows "(session url params 0 = Response status body \<longrightarrow>
            fetch session url params retries = (Some body, [Get])) \<and>
         (Sleep 400 \<in> set (snd (fetch session url params retries)) \<longleftrightarrow>
            raises (session url params 0))"
proof -
  obtain n where n: "nat retries = Suc n" using assms by (cases "nat retries") auto
  show ?thesis
  proof (cases "session url params 0")
    case (Response st b)
    then show ?thesis by (simp add: fetch_def n raises_def)
  next
    case GetRaises
    then show ?thesis by (simp add: fetch_def n raises_def split: prod.splits)
  next
    case (ReadRaises st)
    then show ?thesis by (simp add: fetch_def n raises_def split: prod.splits)
  qed
qed

theorem fetch_ignores_status_witness:
  "(0::int) < 3 \<and>
   fetch (status_session 404 ''Not Found'') query_url None 3 = (Some ''Not Found'', [Get]) \<and>
   fetch (status_session 500 ''server error'') query_url None 3 = (Some ''server error'', [Get]) \<and>
   Sleep 400 \<notin> set (snd (fetch (status_session 404 ''Not Found'') query_url None 3))"
  using fetch_ignores_status [of 3 "status_session 404 ''Not Found''" query_url None 404 "''Not Found''"]
    fetch_ignores_status [of 3 "status_session 500 ''server error''" query_url None 500 "''server error''"]
  by (simp add: status_session_def raises_def)

section \<open>Properties of the index parser\<close>

lemma map_filter_append:
  "List.map_filter f (xs @ ys) = List.map_filter f xs @ List.map_filter f ys"
  by (simp add: List.map_filter_def)

lemma scan_anchors_eq:
  "scan_anchors L semester as depts =
     depts @ List.map_filter (\<lambda>a. regex_search L semester (href_of a)) as"
  by (induction as arbitrary: depts) (simp_all split: option.splits)

lemma scan_rows_eq:
  "scan_rows L semester rows depts =
     depts @ List.map_filter (\<lambda>a. regex_search L semester (href_of a)) (concat rows)"
  by (induction rows arbitrary: depts)
     (simp_all add: scan_anchors_eq map_filter_append)

lemma try_code_Some:
  "try_code tail rest k = Some code \<Longrightarrow>
   \<exists>j. 2 \<le> j \<and> j \<le> k \<and> code = take j rest \<and> prefix tail (drop j rest)"
proof (induction k)
  case 0
  then show ?case by simp
next
  case (Suc k)
  show ?case
  proof (cases "2 \<le> Suc k \<and> prefix tail (drop (Suc k) rest)")
    case True
    with Suc.prems have "code = take (Suc k) rest" by simp
    with True show ?thesis by blast
  next
    case False
    with Suc.prems have "try_code tail rest k = Some code" by auto
    from Suc.IH [OF this] obtain j where
      "2 \<le> j" "j \<le> k" "code = take j rest" "prefix tail (drop j rest)" by blast
    then show ?thesis by (intro exI [of _ j]) simp
  qed
qed

lemma try_code_finds:
  "2 \<le> j \<Longrightarrow> j \<le> k \<Longrightarrow> prefix tail (drop j rest) \<Longrightarrow> try_code tail rest k \<noteq> None"
proof (induction k)
  case 0
  then show ?case by simp
next
  case (Suc k)
  show ?case
  proof (cases "j = Suc k")
    case True
    with Suc.prems show ?thesis by simp
  next
    case False
    with Suc.prems have "j \<le> k" by simp
    with Suc have "try_code tail rest k \<noteq> None" by simp
    then show ?thesis by simp
  qed
qed

lemma take_takeWhile:
  "j \<le> length (takeWhile P xs) \<Longrightarrow> take j xs = take j (takeWhile P xs)"
proof -
  assume j: "j \<le> length (takeWhile P xs)"
  have "take j xs = take j (takeWhile P xs @ dropWhile P xs)" by simp
  also have "\<dots> = take j (takeWhile P xs)" using j by (simp del: takeWhile_dropWhile_id)
  finally show ?thesis .
qed

lemma match_here_Some:
  assumes "match_here L semester s = Some code"
  shows "\<exists>post. s = 47 # code @ pattern_tail semester @ post \<and>
           2 \<le> length code \<and> length code \<le> 6 \<and> (\<forall>c\<in>set code. word_char L c)"
proof -
  from assms obtain rest where s: "s = 47 # rest"
    and t: "try_code (pattern_tail semester) rest
              (min 6 (length (takeWhile (word_char L) rest))) = Some code"
    by (auto simp: match_here_def split: list.splits if_splits)
  from try_code_Some [OF t] obtain j where j: "2 \<le> j"
    "j \<le> min 6 (length (takeWhile (word_char L) rest))"
    "code = take j rest" "prefix (pattern_tail semester) (drop j rest)" by blast
  from j(2) have jl: "j \<le> length (takeWhile (word_char L) rest)" and j6: "j \<le> 6" by simp_all
  have code': "code = take j (takeWhile (word_char L) rest)"
    using j(3) take_takeWhile [OF jl] by simp
  have len: "length code = j" using code' jl by simp
  have wc: "\<forall>c\<in>set code. word_char L c"
    using code' by (auto dest: in_set_takeD set_takeWhileD)
  from j(4) obtain post where "drop j rest = pattern_tail semester @ post"
    by (auto simp: prefix_def)
  then have "rest = code @ pattern_tail semester @ post"
    using j(3) append_take_drop_id [of j rest] by simp
  with s len j(1) j6 wc show ?thesis by blast
qed

lemma match_here_finds:
  assumes "2 \<le> length code" "length code \<le> 6" "\<forall>c\<in>set code. word_char L c"
  shows "match_here L semester (47 # code @ pattern_tail semester @ post) \<noteq> None"
proof -
  let ?rest = "code @ pattern_tail semester @ post"
  have "takeWhile (word_char L) ?rest = code @ takeWhile (word_char L) (pattern_tail semester @ post)"
    using assms(3) by simp
  then have "length code \<le> min 6 (length (takeWhile (word_char L) ?rest))"
    using assms(2) by simp
  moreover have "prefix (pattern_tail semester) (drop (length code) ?rest)" by simp
  ultimately have "try_code (pattern_tail semester) ?rest
      (min 6 (length (takeWhile (word_char L) ?rest))) \<noteq> None"
    using assms(1) by (intro try_code_finds [of "length code"])
  then show ?thesis by (simp add: match_here_def)
qed

lemma regex_search_Some:
  "regex_search L semester h = Some code \<Longrightarrow>
   \<exists>pre post. h = pre @ 47 # code @ pattern_tail semester @ post \<and>
     2 \<le> length code \<and> length code \<le> 6 \<and> (\<forall>c\<in>set code. word_char L c)"
proof (induction h)
  case Nil
  then show ?case by simp
next
  case (Cons c cs)
  show ?case
  proof (cases "match_here L semester (c # cs)")
    case (Some code')
    with Cons.prems have "code' = code" by simp
    with Some match_here_Some [of L semester "c # cs" code] obtain post where
      "c # cs = [] @ 47 # code @ pattern_tail semester @ post"
      "2 \<le> length code" "length code \<le> 6" "\<forall>c\<in>set code. word_char L c" by auto
    then show ?thesis by blast
  next
    case None
    with Cons.prems have "regex_search L semester cs = Some code" by simp
    from Cons.IH [OF this] obtain pre post where
      "cs = pre @ 47 # code @ pattern_tail semester @ post"
      "2 \<le> length code" "length code \<le> 6" "\<forall>c\<in>set code. word_char L c" by blast
    then have "c # cs = (c # pre) @ 47 # code @ pattern_tail semester @ post" by simp
    with \<open>2 \<le> length code\<close> \<open>length code \<le> 6\<close> \<open>\<forall>c\<in>set code. word_char L c\<close>
    show ?thesis by blast
  qed
qed

lemma regex_search_finds:
  assumes "2 \<le> length code" "length code \<le> 6" "\<forall>c\<in>set code. word_char L c"
  shows "regex_search L semester (pre @ 47 # code @ pattern_tail semester @ post) \<noteq> None"
proof (induction pre)
  case Nil
  from match_here_finds [OF assms, of semester post] show ?case by auto
next
  case (Cons c pre)
  then show ?case by (auto split: option.splits)
qed

lemma set_sorted_set: "set (sorted_set xs) = set xs"
  by (simp add: sorted_set_def)

lemma sorted_sorted_set: "sorted (sorted_set xs)"
  by (simp add: sorted_set_def)

lemma distinct_sorted_set: "distinct (sorted_set xs)"
  by (simp add: sorted_set_def)

text \<open>
  C7 (amended). \<open>parse_department_page\<close> returns a list, in document order, with one code
  for every anchor of the rows 3 up to the last but one whose \<^verbatim>\<open>href\<close> contains a match of
  \<^verbatim>\<open>/<code>_<semester>.html\<close>, \<^verbatim>\<open><code>\<close> being 2 to 6 word characters (the leftmost match,
  the longest code first); the list may repeat a code, and is empty when no anchor
  matches. The duplicates go in the caller: \<open>get_departments\<close> returns the codes sorted
  and without repetition.
\<close>

theorem parse_department_page_codes:
  "parse_department_page L html semester =
     List.map_filter (\<lambda>a. regex_search L semester (href_of a))
       (concat (butlast (drop 3 (select_table_tr L html)))) \<and>
   (\<forall>h code. regex_search L semester h = Some code \<longrightarrow>
      2 \<le> length code \<and> length code \<le> 6 \<and> (\<forall>c\<in>set code. word_char L c) \<and>
      (\<exists>pre post. h = pre @ lit ''/'' @ code @ lit ''_'' @ semester @ lit ''.html'' @ post)) \<and>
   (\<forall>pre code post. 2 \<le> length code \<and> length code \<le> 6 \<and> (\<forall>c\<in>set code. word_char L c) \<longrightarrow>
      regex_search L semester
        (pre @ lit ''/'' @ code @ lit ''_'' @ semester @ lit ''.html'' @ post) \<noteq> None) \<and>
   distinct (get_departments L session semester) \<and>
   sorted (get_departments L session semester)"
proof -
  have tail: "lit ''_'' @ semester @ lit ''.html'' @ post = pattern_tail semester @ post" for post
    by (simp add: pattern_tail_def)
  have 1: "parse_department_page L html semester =
     List.map_filter (\<lambda>a. regex_search L semester (href_of a))
       (concat (butlast (drop 3 (select_table_tr L html))))"
    by (simp add: parse_department_page_def scan_rows_eq)
  have 2: "2 \<le> length code \<and> length code \<le> 6 \<and> (\<forall>c\<in>set code. word_char L c) \<and>
      (\<exists>pre post. h = pre @ lit ''/'' @ code @ lit ''_'' @ semester @ lit ''.html'' @ post)"
    if a: "regex_search L semester h = Some code" for h code
  proof -
    from regex_search_Some [OF a] obtain pre post where
      h: "h = pre @ 47 # code @ pattern_tail semester @ post"
      and b: "2 \<le> length code" "length code \<le> 6" "\<forall>c\<in>set code. word_char L c" by blast
    from h have "h = pre @ lit ''/'' @ code @ lit ''_'' @ semester @ lit ''.html'' @ post"
      by (simp add: pattern_tail_def)
    with b show ?thesis by blast
  qed
  have 3: "regex_search L semester
        (pre @ lit ''/'' @ code @ lit ''_'' @ semester @ lit ''.html'' @ post) \<noteq> None"
    if a: "2 \<le> length code \<and> length code \<le> 6 \<and> (\<forall>c\<in>set code. word_char L c)"
    for pre code post
  proof -
    from a have "regex_search L semester (pre @ 47 # code @ pattern_tail semester @ post) \<noteq> None"
      by (intro regex_search_finds) simp_all
    then show ?thesis by (simp add: pattern_tail_def)
  qed
  have 4: "distinct (get_departments L session semester)"
    by (simp add: get_departments_def distinct_sorted_set)
  have 5: "sorted (get_departments L session semester)"
    by (simp add: get_departments_def sorted_sorted_set)
  from 1 2 3 4 5 show ?thesis by blast
qed

theorem parse_department_page_codes_witness:
  "regex_search demo_lib (lit ''Fall2025'') (lit ''/HIST_Fall2025.html'') = Some (lit ''HIST'') \<and>
   regex_search demo_lib (lit ''Fall2025'') (lit ''/UNHS_Fall2025.html'') = Some (lit ''UNHS'') \<and>
   list_all (word_char demo_lib) (lit ''HIST'') \<and>
   regex_search demo_lib (lit ''Fall2025'')
     (lit ''/cu/bulletin/uwb/sel'' @ lit ''/'' @ lit ''HIST'' @ lit ''_'' @ lit ''Fall2025''
        @ lit ''.html'' @ []) \<noteq> None \<and>
   parse_department_page demo_lib demo_page (lit ''Fall2025'') = [lit ''HIST'', lit ''HIST''] \<and>
   distinct (get_departments demo_lib always_fails (lit ''Fall2025''))"
proof -
  note T = parse_department_page_codes [of demo_lib demo_page "lit ''Fall2025''" always_fails]
  have e1: "regex_search demo_lib (lit ''Fall2025'') (lit ''/HIST_Fall2025.html'') = Some (lit ''HIST'')"
    by code_simp
  have e2: "regex_search demo_lib (lit ''Fall2025'') (lit ''/UNHS_Fall2025.html'') = Some (lit ''UNHS'')"
    by code_simp
  from T e1 have "\<forall>c\<in>set (lit ''HIST''). word_char demo_lib c" by blast
  then have w: "list_all (word_char demo_lib) (lit ''HIST'')" by (simp only: list_all_iff)
  have "2 \<le> length (lit ''HIST'') \<and> length (lit ''HIST'') \<le> 6" by simp
  with T \<open>\<forall>c\<in>set (lit ''HIST''). word_char demo_lib c\<close>
  have f: "regex_search demo_lib (lit ''Fall2025'')
     (lit ''/cu/bulletin/uwb/sel'' @ lit ''/'' @ lit ''HIST'' @ lit ''_'' @ lit ''Fall2025''
        @ lit ''.html'' @ []) \<noteq> None" by blast
  have p: "parse_department_page demo_lib demo_page (lit ''Fall2025'') = [lit ''HIST'', lit ''HIST'']"
    by code_simp
  from T have g: "distinct (get_departments demo_lib always_fails (lit ''Fall2025''))" by blast
  from e1 e2 w f p g show ?thesis by blast
qed

text \<open>
  A page whose scanned row has two anchors to the same department gives that code twice.
\<close>

theorem parse_department_page_counterexample:
  "\<not> distinct (parse_department_page demo_lib demo_page (lit ''Fall2025''))"
proof -
  have "parse_department_page demo_lib demo_page (lit ''Fall2025'') = [lit ''HIST'', lit ''HIST'']"
    by code_simp
  then show ?thesis by simp
qed

section \<open>Properties of the discovery\<close>

lemma fetch_always_fails: "fst (fetch always_fails url params retries) = None"
  using fetch_loop_all_raise [of "nat retries" "always_fails url params" 0]
  by (simp add: fetch_def always_fails_def raises_def)


lemma merge_pages_skip:
  "\<forall>p\<in>set pages. p = None \<or> p = Some [] \<Longrightarrow> merge_pages L semester pages all_depts = all_depts"
  by (induction pages arbitrary: all_depts) auto


lemma get_departments_always_fails: "get_departments L always_fails semester = []"
proof -
  have "merge_pages L semester (index_pages always_fails) [] = []"
    by (rule merge_pages_skip) (simp add: index_pages_def fetch_always_fails)
  then show ?thesis by (simp add: get_departments_def sorted_set_def)
qed


text \<open>
  C2 (amended). For every list of manual codes and every outcome of the index fetches,
  the departments after the merge are a superset of the manual codes, not always a
  strict one: they are exactly the union of the discovered codes and the manual ones,
  sorted and without repetition.
\<close>

theorem add_manual_superset:
  "set manual \<subseteq> set (add_manual (get_departments L session semester) manual) \<and>
   set (add_manual (get_departments L session semester) manual) =
     set (get_departments L session semester) \<union> set manual \<and>
   set MANUAL_DEPTS \<subseteq> set (departments L session semester) \<and>
   sorted (departments L session semester) \<and> distinct (departments L session semester)"
  by (auto simp: add_manual_def departments_def set_sorted_set sorted_sorted_set
      distinct_sorted_set)

text \<open>
  When every index fetch fails the result is the manual list itself, which is no strict
  superset of it.
\<close>

theorem add_manual_strict_counterexample:
  "\<not> set MANUAL_DEPTS \<subset> set (departments demo_lib always_fails (lit ''Fall2025''))"
  by (simp add: departments_def add_manual_def get_departments_always_fails set_sorted_set)

section \<open>Properties of the harvest\<close>

lemma harvest_loop_eq:
  "harvest_loop L session term_code depts all_courses printed =
     (all_courses @ concat (map (category_records L session term_code) depts),
      printed @ List.map_filter
        (\<lambda>dept. case category_result L session term_code dept of
                  Inl f \<Rightarrow> Some (dept, f) | Inr data \<Rightarrow> None) depts)"
  by (induction depts arbitrary: all_courses printed)
     (simp_all add: category_records_def category_result_def split: sum.splits)

lemma concat_records_filter:
  "concat (map (category_records L session term_code)
      (filter (\<lambda>dept. \<not> category_fails L session term_code dept) depts)) =
   concat (map (category_records L session term_code) depts)"
  by (induction depts) (simp_all add: category_records_def category_fails_def split: sum.splits)

lemma map_fst_failures:
  "map fst (List.map_filter
      (\<lambda>dept. case category_result L session term_code dept of
                Inl f \<Rightarrow> Some (dept, f) | Inr data \<Rightarrow> None) depts) =
   filter (category_fails L session term_code) depts"
  by (induction depts) (simp_all add: category_fails_def split: sum.splits)

text \<open>
  C8. The harvest loop always returns: its records are the records of the departments
  that did not fail, department after department in the order of the list, each
  department's records in the order of its payload; the departments that failed (no
  response, no array, a payload that does not parse) are the ones reported, and they
  contribute nothing. The list of departments it is run on is sorted.
\<close>

theorem harvest_partial_failure:
  "fst (harvest L session term_code depts) =
     concat (map (category_records L session term_code)
       (filter (\<lambda>dept. \<not> category_fails L session term_code dept) depts)) \<and>
   map fst (snd (harvest L session term_code depts)) =
     filter (category_fails L session term_code) depts \<and>
   length (filter (\<lambda>dept. \<not> category_fails L session term_code dept) depts) =
     length depts - length (filter (category_fails L session term_code) depts) \<and>
   sorted (departments L session' semester)"
proof -
  have "length depts = length (filter (category_fails L session term_code) depts) +
      length (filter (\<lambda>dept. \<not> category_fails L session term_code dept) depts)"
    by (rule sum_length_filter_compl [symmetric])
  then show ?thesis
    by (simp add: harvest_def harvest_loop_eq concat_records_filter map_fst_failures
        departments_def add_manual_def sorted_sorted_set)
qed

theorem harvest_partial_failure_witness:
  "harvest demo_lib demo_session (lit ''20253'')
     [lit ''AFAS'', lit ''HIST'', lit ''MATH'', lit ''UNHS''] =
   ([PDict [(lit ''id'', PInt 1)], PDict [(lit ''id'', PInt 2)], PDict [(lit ''id'', PInt 3)]],
    [(lit ''HIST'', NoResponse), (lit ''MATH'', NoJsonArray)]) \<and>
   filter (category_fails demo_lib demo_session (lit ''20253''))
     [lit ''AFAS'', lit ''HIST'', lit ''MATH'', lit ''UNHS''] = [lit ''HIST'', lit ''MATH'']"
proof -
  note T = harvest_partial_failure [of demo_lib demo_session "lit ''20253''"
      "[lit ''AFAS'', lit ''HIST'', lit ''MATH'', lit ''UNHS'']" demo_session "lit ''Fall2025''"]
  have h: "harvest demo_lib demo_session (lit ''20253'')
     [lit ''AFAS'', lit ''HIST'', lit ''MATH'', lit ''UNHS''] =
   ([PDict [(lit ''id'', PInt 1)], PDict [(lit ''id'', PInt 2)], PDict [(lit ''id'', PInt 3)]],
    [(lit ''HIST'', NoResponse), (lit ''MATH'', NoJsonArray)])"
    by code_simp
  from T have "filter (category_fails demo_lib demo_session (lit ''20253''))
     [lit ''AFAS'', lit ''HIST'', lit ''MATH'', lit ''UNHS''] =
     map fst (snd (harvest demo_lib demo_session (lit ''20253'')
       [lit ''AFAS'', lit ''HIST'', lit ''MATH'', lit ''UNHS'']))" by simp
  also have "\<dots> = [lit ''HIST'', lit ''MATH'']" unfolding h by simp
  finally show ?thesis using h by blast
qed


section \<open>Properties of the payload extraction\<close>

lemma py_find_absent: "c \<notin> set text \<Longrightarrow> py_find text c = - 1"
  by (simp add: py_find_def)

lemma py_find_first:
  "c \<notin> set pre \<Longrightarrow> py_find (pre @ c # rest) c = int (length pre)"
proof -
  assume "c \<notin> set pre"
  then have "takeWhile (\<lambda>x. x \<noteq> c) pre = pre"
    by auto
  then show ?thesis by (simp add: py_find_def takeWhile_tail)
qed

lemma extract_payload_no_array:
  "91 \<notin> set (decode_ignore L raw) \<Longrightarrow> extract_payload L raw = Inl NoJsonArray"
  by (simp add: extract_payload_def py_find_absent)

lemma extract_payload_first_bracket:
  assumes "decode_ignore L raw = pre @ 91 # rest" "91 \<notin> set pre"
  shows "extract_payload L raw =
    (case json_loads L (91 # rest) of
       None \<Rightarrow> Inl JsonError
     | Some data \<Rightarrow> (case extend_items data of None \<Rightarrow> Inl JsonError | Some xs \<Rightarrow> Inr xs))"
  using assms by (simp add: extract_payload_def py_find_first Let_def)

lemma harvest_single_failure:
  assumes "fst (fetch session query_url (query_params dept term_code) 3) = Some raw"
    and "raw \<noteq> []" and "extract_payload L raw = Inl f"
  shows "harvest L session term_code [dept] = ([], [(dept, f)])"
  using assms by (simp add: harvest_def shard_def)

text \<open>
  C6. The body is decoded with invalid bytes ignored (the decoder of the library), the
  first \<^verbatim>\<open>[\<close> of the text is located and the text from there to the end is given to
  \<^verbatim>\<open>json.loads\<close>. A text without \<^verbatim>\<open>[\<close>, or one whose part from the first \<^verbatim>\<open>[\<close> on does not
  parse, is a failure with its own reason, and in the harvest such a department adds no
  record and the loop goes on. The bytes \<^verbatim>\<open>garbage<<<[{"a":1}]\<close> give the list with the one
  record \<^verbatim>\<open>{"a": 1}\<close>, the library decoding these bytes as themselves and parsing
  \<^verbatim>\<open>[{"a":1}]\<close> as that list.
\<close>

theorem extract_payload_tolerant:
  \<open>(91 \<notin> set (decode_ignore L raw) \<longrightarrow> extract_payload L raw = Inl NoJsonArray) \<and>
   (\<forall>pre rest. decode_ignore L raw = pre @ 91 # rest \<and> 91 \<notin> set pre \<longrightarrow>
      extract_payload L raw =
        (case json_loads L (91 # rest) of
           None \<Rightarrow> Inl JsonError
         | Some data \<Rightarrow>
             (case extend_items data of None \<Rightarrow> Inl JsonError | Some xs \<Rightarrow> Inr xs))) \<and>
   (\<forall>f. fst (fetch session query_url (query_params dept term_code) 3) = Some raw \<and> raw \<noteq> [] \<and>
      extract_payload L raw = Inl f \<longrightarrow>
      harvest L session term_code [dept] = ([], [(dept, f)])) \<and>
   (decode_ignore L ''garbage<<<[{"a":1}]'' = lit ''garbage<<<[{"a":1}]'' \<and>
    json_loads L (lit ''[{"a":1}]'') = Some (PList [PDict [(lit ''a'', PInt 1)]]) \<longrightarrow>
      extract_payload L ''garbage<<<[{"a":1}]'' = Inr [PDict [(lit ''a'', PInt 1)]])\<close>
proof -
  have ex: \<open>extract_payload L ''garbage<<<[{"a":1}]'' = Inr [PDict [(lit ''a'', PInt 1)]]\<close>
    if d: \<open>decode_ignore L ''garbage<<<[{"a":1}]'' = lit ''garbage<<<[{"a":1}]''\<close>
      and j: \<open>json_loads L (lit ''[{"a":1}]'') = Some (PList [PDict [(lit ''a'', PInt 1)]])\<close>
  proof -
    have \<open>decode_ignore L ''garbage<<<[{"a":1}]'' = lit ''garbage<<<'' @ 91 # lit ''{"a":1}]''\<close>
      using d by simp
    moreover have \<open>91 \<notin> set (lit ''garbage<<<'')\<close> by simp
    ultimately have \<open>extract_payload L ''garbage<<<[{"a":1}]'' =
      (case json_loads L (91 # lit ''{"a":1}]'') of
         None \<Rightarrow> Inl JsonError
       | Some data \<Rightarrow> (case extend_items data of None \<Rightarrow> Inl JsonError | Some xs \<Rightarrow> Inr xs))\<close>
      by (rule extract_payload_first_bracket)
    moreover have \<open>json_loads L (91 # lit ''{"a":1}]'') =
        Some (PList [PDict [(lit ''a'', PInt 1)]])\<close>
      using j by simp
    ultimately show ?thesis by simp
  qed
  show ?thesis
    using extract_payload_no_array [of L raw] extract_payload_first_bracket [of L raw]
      harvest_single_failure [of session dept term_code raw L] ex
    by blast
qed

theorem extract_payload_tolerant_witness:
  \<open>extract_payload demo_lib ''garbage<<<[{"a":1}]'' = Inr [PDict [(lit ''a'', PInt 1)]] \<and>
   extract_payload demo_lib ''no courses'' = Inl NoJsonArray \<and>
   extract_payload demo_lib ''[1,2'' = Inl JsonError \<and>
   harvest demo_lib demo_session (lit ''20253'') [lit ''MATH''] =
     ([], [(lit ''MATH'', NoJsonArray)])\<close>
proof -
  note T = extract_payload_tolerant [of demo_lib _ demo_session "lit ''MATH''" "lit ''20253''"]
  have d: \<open>decode_ignore demo_lib ''garbage<<<[{"a":1}]'' = lit ''garbage<<<[{"a":1}]''\<close>
    by code_simp
  have j: \<open>json_loads demo_lib (lit ''[{"a":1}]'') = Some (PList [PDict [(lit ''a'', PInt 1)]])\<close>
    by code_simp
  from T [of "''no courses''"] d j
  have 1: \<open>extract_payload demo_lib ''garbage<<<[{"a":1}]'' = Inr [PDict [(lit ''a'', PInt 1)]]\<close>
    by blast
  have \<open>91 \<notin> set (decode_ignore demo_lib ''no courses'')\<close> by code_simp
  with T [of "''no courses''"] have 2: \<open>extract_payload demo_lib ''no courses'' = Inl NoJsonArray\<close>
    by blast
  have \<open>decode_ignore demo_lib ''[1,2'' = [] @ 91 # lit ''1,2'' \<and> 91 \<notin> set ([]::nat list)\<close>
    by code_simp
  with T [of "''[1,2''"] have \<open>extract_payload demo_lib ''[1,2'' =
        (case json_loads demo_lib (91 # lit ''1,2'') of
           None \<Rightarrow> Inl JsonError
         | Some data \<Rightarrow>
             (case extend_items data of None \<Rightarrow> Inl JsonError | Some xs \<Rightarrow> Inr xs))\<close>
    by blast
  moreover have \<open>json_loads demo_lib (91 # lit ''1,2'') = None\<close> by code_simp
  ultimately have 3: \<open>extract_payload demo_lib ''[1,2'' = Inl JsonError\<close> by simp
  have \<open>fst (fetch demo_session query_url (query_params (lit ''MATH'') (lit ''20253'')) 3) =
      Some ''no courses'' \<and> ''no courses'' \<noteq> []\<close>
    by code_simp
  with T [of "''no courses''"] 2
  have 4: \<open>harvest demo_lib demo_session (lit ''20253'') [lit ''MATH''] =
     ([], [(lit ''MATH'', NoJsonArray)])\<close>
    by blast
  from 1 2 3 4 show ?thesis by blast
qed

section \<open>Properties of the deduplication\<close>

lemma first_by_fresh: "x \<in> set (first_by key seen xs) \<Longrightarrow> key x \<notin> seen"
  by (induction xs arbitrary: seen) (auto split: if_splits)

lemma first_by_subset: "set (first_by key seen xs) \<subseteq> set xs"
  by (induction xs arbitrary: seen) auto



lemma first_by_distinct: "distinct (map key (first_by key seen xs))"
proof (induction xs arbitrary: seen)
  case Nil
  then show ?case by simp
next
  case (Cons x xs)
  have "key x \<notin> key ` set (first_by key (insert (key x) seen) xs)"
    by (auto dest: first_by_fresh)
  with Cons show ?case by simp
qed


lemma first_by_id:
  "distinct (map key xs) \<Longrightarrow> key ` set xs \<inter> seen = {} \<Longrightarrow> first_by key seen xs = xs"
  by (induction xs arbitrary: seen) auto

lemma first_by_idem: "first_by key {} (first_by key {} xs) = first_by key {} xs"
  by (rule first_by_id) (simp_all add: first_by_distinct)

lemma dedupe_loop_returns:
  "\<forall>c\<in>set cs. \<exists>k. record_key L c = Inr k \<Longrightarrow>
   dedupe_loop L cs seen deduped = Inr (deduped @ first_by (record_key L) (Inr ` seen) cs)"
proof (induction cs arbitrary: seen deduped)
  case Nil
  then show ?case by simp
next
  case (Cons c cs)
  then obtain k where k: "record_key L c = Inr k" by auto
  have ih: "dedupe_loop L cs s d = Inr (d @ first_by (record_key L) (Inr ` s) cs)" for s d
    using Cons by simp
  show ?case by (simp add: k ih image_iff)
qed

lemma dedupe_loop_raises:
  "record_key L c = Inl e \<Longrightarrow> c \<in> set cs \<Longrightarrow> \<exists>e'. dedupe_loop L cs seen deduped = Inl e'"
  by (induction cs arbitrary: seen deduped) (auto split: sum.splits)

lemma dedupe_returns:
  "\<forall>c\<in>set cs. \<exists>k. record_key L c = Inr k \<Longrightarrow>
   dedupe L cs = Inr (first_by (record_key L) {} cs)"
  using dedupe_loop_returns [of cs L "{}" "[]"] by (simp add: dedupe_def)

lemma dedupe_raises:
  "record_key L c = Inl e \<Longrightarrow> c \<in> set cs \<Longrightarrow> \<exists>e'. dedupe L cs = Inl e'"
  unfolding dedupe_def by (rule dedupe_loop_raises)

lemma dedupe_Inr_keys:
  assumes "dedupe L cs = Inr out"
  shows "\<forall>c\<in>set cs. \<exists>k. record_key L c = Inr k"
proof
  fix c assume c: "c \<in> set cs"
  show "\<exists>k. record_key L c = Inr k"
  proof (cases "record_key L c")
    case (Inl e)
    from dedupe_raises [OF Inl c] assms show ?thesis by auto
  next
    case (Inr k)
    then show ?thesis by blast
  qed
qed



text \<open>
  C5. Deduplication of a deduplicated list changes nothing; when the first run raises,
  so does the composition, with the same exception.
\<close>

theorem dedupe_idempotent: "dedupe_twice L cs = dedupe L cs"
proof (cases "dedupe L cs")
  case (Inl e)
  then show ?thesis by (simp add: dedupe_twice_def)
next
  case (Inr out)
  then have keys: "\<forall>c\<in>set cs. \<exists>k. record_key L c = Inr k" by (rule dedupe_Inr_keys)
  with Inr have out: "out = first_by (record_key L) {} cs" by (simp add: dedupe_returns)
  have "\<forall>c\<in>set out. \<exists>k. record_key L c = Inr k"
    using keys first_by_subset [of "record_key L" "{}" cs] unfolding out by blast
  then have "dedupe L out = Inr (first_by (record_key L) {} out)" by (rule dedupe_returns)
  then have "dedupe L out = Inr out" by (simp add: out first_by_idem)
  with Inr show ?thesis by (simp add: dedupe_twice_def)
qed

theorem dedupe_idempotent_witness:
  "dedupe_twice demo_lib [course_a, PDict course_no_id, course_a_again]
     = Inr [course_a, PDict course_no_id] \<and>
   dedupe_twice demo_lib [PInt 1] = Inl AttributeError"
proof -
  have k: "record_key demo_lib course_a = Inr (KNum 7)"
    "record_key demo_lib (PDict course_no_id) = Inr (KStr (lit ''{'title': 'x'}''))"
    "record_key demo_lib course_a_again = Inr (KNum 7)"
    by code_simp+
  have "dedupe demo_lib [course_a, PDict course_no_id, course_a_again]
     = Inr [course_a, PDict course_no_id]"
    by (simp add: dedupe_def k)
  moreover have "dedupe demo_lib [PInt 1] = Inl AttributeError"
    by (simp add: dedupe_def record_key_def identity_key_def)
  ultimately show ?thesis by (simp only: dedupe_idempotent)
qed

text \<open>
  Deduplication raises on an element that is not a dict, and on a record whose id is a
  list.
\<close>

lemma dedupe_non_dict_raises: "dedupe L (PInt 1 # cs) = Inl AttributeError"
  by (simp add: dedupe_def record_key_def identity_key_def)

lemma dedupe_unhashable_raises:
  "dedupe L (PDict [(lit ''id'', PList [PInt 1])] # cs) = Inl TypeError"
  by (simp add: dedupe_def record_key_def identity_key_def py_or_def dict_get_def truthy_def)






end
